theory Spec2Isabelle
  imports Main
begin

section \<open>The tables\<close>

text \<open>
  The queue core of the repository lives in three places: the client function
  \<open>generateTokenNumber\<close> and the form handler \<open>onSubmit\<close> of
  \<open>src/pages/BookAppointment.tsx\<close>, the database functions \<open>advance_queue\<close>,
  \<open>reset_department_queue\<close> and \<open>update_appointment_status\<close> of the migrations, and the
  schema of the first migration: its tables, keys and row-level security policies.

  The model keeps the key columns and the columns these functions and policies read or
  write. The timestamp columns (\<open>updated_at\<close>, \<open>created_at\<close>, \<open>estimated_time\<close>), the
  names and the contact columns are written but never read by them and are left out.
  Identifiers (\<open>uuid\<close>) are natural numbers. Of \<open>users\<close> only the primary key matters
  (\<open>appointments.user_id\<close> refers to it), so the table is the list of its keys.

  \<open>queue_status\<close> carries \<open>UNIQUE(hospital_id, department_id)\<close>, so the table is a map from
  that pair to the two counters. The counters are PostgreSQL \<open>integer\<close> columns: 32 bits,
  and an increment past 2147483647 raises a numeric range error instead of wrapping.
\<close>

type_synonym uuid = nat

datatype appointment_status = Waiting | Ready | Completed | Cancelled

record hospital =
  hosp_id :: uuid
  admin_id :: "uuid option"

record department =
  dep_id :: uuid
  dep_hospital_id :: uuid

record queue_row =
  current_token :: int
  total_tokens :: int

record appointment =
  appt_id :: uuid
  user_id :: uuid
  hospital_id :: uuid
  department_id :: uuid
  token_number :: int
  status :: appointment_status

record db =
  users :: "uuid list"
  hospitals :: "hospital list"
  departments :: "department list"
  queue_status :: "uuid \<times> uuid \<Rightarrow> queue_row option"
  appointments :: "appointment list"

datatype error =
    Unauthorized
  | UniqueViolation
  | NumericValueOutOfRange
  | InsufficientPrivilege
  | ForeignKeyViolation

definition integer_max :: int where
  "integer_max = 2147483647"

section \<open>Keys and policies of the schema\<close>

text \<open>
  The foreign keys: \<open>queue_status\<close> and \<open>appointments\<close> refer to \<open>hospitals(id)\<close> and
  \<open>departments(id)\<close>, \<open>appointments\<close> also to \<open>users(id)\<close>.
\<close>

definition user_exists :: "db \<Rightarrow> uuid \<Rightarrow> bool" where
  "user_exists s u = list_ex (\<lambda>x. x = u) (users s)"

definition hospital_exists :: "db \<Rightarrow> uuid \<Rightarrow> bool" where
  "hospital_exists s h = list_ex (\<lambda>x. hosp_id x = h) (hospitals s)"

definition department_exists :: "db \<Rightarrow> uuid \<Rightarrow> bool" where
  "department_exists s d = list_ex (\<lambda>x. dep_id x = d) (departments s)"

text \<open>
  Row-level security is enabled on every table. On \<open>queue_status\<close> every authenticated
  user may select (\<open>USING (true)\<close>); the only policy for writing is
  \<open>"Hospital admins can manage queue status" FOR ALL USING (hospital_id IN (SELECT id
  FROM hospitals WHERE admin_id = auth.uid()))\<close>. For an update it selects the rows the
  statement may touch: a row that fails it is not updated, and no error is reported. For
  an insert it is the check on the new row: a row that fails it is refused. On
  \<open>appointments\<close> the insert policy is \<open>WITH CHECK (user_id = auth.uid())\<close>.
\<close>

definition queue_status_write_policy :: "db \<Rightarrow> uuid \<Rightarrow> uuid \<Rightarrow> bool" where
  "queue_status_write_policy s auth_uid row_hospital_id =
     list_ex (\<lambda>x. x = row_hospital_id)
       (map hosp_id (filter (\<lambda>h. admin_id h = Some auth_uid) (hospitals s)))"

definition appointments_insert_policy :: "uuid \<Rightarrow> appointment \<Rightarrow> bool" where
  "appointments_insert_policy auth_uid a = (user_id a = auth_uid)"

section \<open>Token issuance and booking (BookAppointment.tsx)\<close>

text \<open>
  \<open>generateTokenNumber\<close> makes two storage calls with an \<open>await\<close> between them, in the
  session of the logged-in user \<open>auth_uid\<close>. The first is the
  \<open>select('total_tokens') ... .single()\<close>; its result is \<open>None\<close> when \<open>.single()\<close> reports
  an error because no row matches. The second, which depends on that result, is either
  the insert of a new row \<open>(current_token 0, total_tokens 1)\<close> or the update of
  \<open>total_tokens\<close>; it is \<open>generateTokenNumber_write\<close>, and it takes the table as it is when
  the call arrives, not as it was at the read.

  The insert is checked in the order of the database: the policy, the unique constraint,
  the foreign keys. The update fails when the new value leaves the range of \<open>integer\<close>;
  otherwise it changes the row it matches when the policy lets the caller write it, and
  nothing when it matches no row or the policy hides the row, and reports no error in
  either case: the function then returns the new number although it was not stored.
\<close>

definition select_total_tokens :: "db \<Rightarrow> uuid \<Rightarrow> uuid \<Rightarrow> int option" where
  "select_total_tokens s hospitalId departmentId =
     map_option total_tokens (queue_status s (hospitalId, departmentId))"

definition or_zero :: "int \<Rightarrow> int" where
  \<comment> \<open>\<open>x || 0\<close> on a number\<close>
  "or_zero x = (if x = 0 then 0 else x)"

definition generateTokenNumber_write ::
  "db \<Rightarrow> uuid \<Rightarrow> uuid \<Rightarrow> uuid \<Rightarrow> int option \<Rightarrow> error + (int \<times> db)" where
  "generateTokenNumber_write s auth_uid hospitalId departmentId queueData =
     (case queueData of
        None \<Rightarrow>
          (if \<not> queue_status_write_policy s auth_uid hospitalId then Inl InsufficientPrivilege
           else if queue_status s (hospitalId, departmentId) \<noteq> None then Inl UniqueViolation
           else if \<not> (hospital_exists s hospitalId \<and> department_exists s departmentId)
           then Inl ForeignKeyViolation
           else
             Inr (1, s\<lparr>queue_status := (queue_status s)
                        ((hospitalId, departmentId) \<mapsto>
                           \<lparr>current_token = 0, total_tokens = 1\<rparr>)\<rparr>))
      | Some tt \<Rightarrow>
          (let newTokenNumber = or_zero tt + 1 in
           if integer_max < newTokenNumber then Inl NumericValueOutOfRange
           else
             Inr (newTokenNumber,
                  (case queue_status s (hospitalId, departmentId) of
                     None \<Rightarrow> s
                   | Some q \<Rightarrow>
                       if queue_status_write_policy s auth_uid hospitalId
                       then s\<lparr>queue_status := (queue_status s)
                                ((hospitalId, departmentId) \<mapsto>
                                   q\<lparr>total_tokens := newTokenNumber\<rparr>)\<rparr>
                       else s))))"

definition generateTokenNumber :: "db \<Rightarrow> uuid \<Rightarrow> uuid \<Rightarrow> uuid \<Rightarrow> error + (int \<times> db)" where
  \<comment> \<open>one call running alone: the write sees the table the read saw\<close>
  "generateTokenNumber s auth_uid hospitalId departmentId =
     generateTokenNumber_write s auth_uid hospitalId departmentId
       (select_total_tokens s hospitalId departmentId)"

text \<open>
  The insert into \<open>appointments\<close>: the primary key \<open>id\<close> is drawn by the database
  (\<open>gen_random_uuid()\<close>); the model takes the drawn value as an argument, and a value
  already in the table is a unique violation. The policy, the key and the foreign keys
  are checked in this order.
\<close>

definition insert_appointment :: "db \<Rightarrow> uuid \<Rightarrow> appointment \<Rightarrow> error + db" where
  "insert_appointment s auth_uid a =
     (if \<not> appointments_insert_policy auth_uid a then Inl InsufficientPrivilege
      else if list_ex (\<lambda>b. appt_id b = appt_id a) (appointments s) then Inl UniqueViolation
      else if \<not> (user_exists s (user_id a) \<and> hospital_exists s (hospital_id a)
                  \<and> department_exists s (department_id a))
      then Inl ForeignKeyViolation
      else Inr (s\<lparr>appointments := appointments s @ [a]\<rparr>))"

datatype booking_result = LoginRequired | BookingFailed error | Booked appointment

text \<open>
  \<open>onSubmit\<close>: \<open>user\<close> is the profile of the session's user (its \<open>id\<close> is \<open>auth.uid()\<close>), or
  nothing when nobody is logged in, and then nothing happens. Otherwise the token is
  generated, then the appointment is inserted with status \<open>waiting\<close>. The two steps are
  separate requests: when the insert fails, what \<open>generateTokenNumber\<close> wrote stays.
  \<open>calculateEstimatedTime\<close> between them only reads.
\<close>

definition onSubmit :: "uuid option \<Rightarrow> uuid \<Rightarrow> uuid \<Rightarrow> uuid \<Rightarrow> db \<Rightarrow> booking_result \<times> db" where
  "onSubmit user new_id hospitalId departmentId s =
     (case user of
        None \<Rightarrow> (LoginRequired, s)
      | Some u \<Rightarrow>
          (case generateTokenNumber s u hospitalId departmentId of
             Inl e \<Rightarrow> (BookingFailed e, s)
           | Inr (tokenNumber, s1) \<Rightarrow>
               (let a = \<lparr>appt_id = new_id, user_id = u, hospital_id = hospitalId,
                         department_id = departmentId, token_number = tokenNumber,
                         status = Waiting\<rparr>
                in case insert_appointment s1 u a of
                     Inl e \<Rightarrow> (BookingFailed e, s1)
                   | Inr s2 \<Rightarrow> (Booked a, s2))))"

section \<open>The database functions (migrations)\<close>

text \<open>
  The functions are \<open>SECURITY DEFINER\<close>: they run with the rights of their owner, whom
  the policies of the tables do not bind, and check the caller themselves.

  The admin check of \<open>advance_queue\<close> and \<open>reset_department_queue\<close>:
  \<open>EXISTS (SELECT 1 FROM hospitals h WHERE h.id = hospital_id AND h.admin_id = auth.uid())\<close>.
  Both \<open>admin_id\<close> and \<open>auth.uid()\<close> may be NULL, and an SQL equality with NULL is not true.
\<close>

definition is_hospital_admin :: "db \<Rightarrow> uuid \<Rightarrow> uuid option \<Rightarrow> bool" where
  "is_hospital_admin s hosp auth_uid =
     list_ex (\<lambda>h. hosp_id h = hosp \<and>
                  (case (admin_id h, auth_uid) of
                     (Some a, Some u) \<Rightarrow> a = u
                   | _ \<Rightarrow> False))
             (hospitals s)"

definition in_department :: "uuid \<Rightarrow> uuid \<Rightarrow> appointment \<Rightarrow> bool" where
  "in_department hosp dept a = (department_id a = dept \<and> hospital_id a = hosp)"

definition mark_ready :: "uuid \<Rightarrow> uuid \<Rightarrow> int \<Rightarrow> appointment \<Rightarrow> appointment" where
  \<comment> \<open>\<open>UPDATE appointments SET status = 'ready' WHERE ... token_number = next_token AND status = 'waiting'\<close>\<close>
  "mark_ready hosp dept next_token a =
     (if in_department hosp dept a \<and> token_number a = next_token \<and> status a = Waiting
      then a\<lparr>status := Ready\<rparr> else a)"

definition mark_completed :: "uuid \<Rightarrow> uuid \<Rightarrow> int \<Rightarrow> appointment \<Rightarrow> appointment" where
  \<comment> \<open>\<open>UPDATE appointments SET status = 'completed' WHERE ... token_number = next_token - 1 AND status = 'ready'\<close>\<close>
  "mark_completed hosp dept next_token a =
     (if in_department hosp dept a \<and> token_number a = next_token - 1 \<and> status a = Ready
      then a\<lparr>status := Completed\<rparr> else a)"

text \<open>
  \<open>advance_queue(dept_id, hospital_id)\<close>, called by \<open>auth_uid\<close>. A raised exception aborts
  the transaction, so an \<open>Inl\<close> result leaves the database as it was. When no
  \<open>queue_status\<close> row matches, \<open>SELECT ... INTO next_token\<close> leaves \<open>next_token\<close> NULL: the
  \<open>UPDATE\<close> of \<open>queue_status\<close> matches no row, \<open>token_number = NULL\<close> is true of no
  appointment, and the function returns NULL (\<open>None\<close>).
\<close>

definition advance_queue :: "uuid option \<Rightarrow> uuid \<Rightarrow> uuid \<Rightarrow> db \<Rightarrow> error + (int option \<times> db)" where
  "advance_queue auth_uid dept_id hosp s =
     (if \<not> is_hospital_admin s hosp auth_uid then Inl Unauthorized
      else
        (case queue_status s (hosp, dept_id) of
           None \<Rightarrow> Inr (None, s)
         | Some q \<Rightarrow>
             (let next_token = current_token q + 1 in
              if integer_max < next_token then Inl NumericValueOutOfRange
              else
                (let s1 = s\<lparr>queue_status := (queue_status s)
                              ((hosp, dept_id) \<mapsto> q\<lparr>current_token := next_token\<rparr>)\<rparr>;
                     s2 = s1\<lparr>appointments :=
                              map (mark_ready hosp dept_id next_token) (appointments s1)\<rparr>;
                     s3 = s2\<lparr>appointments :=
                              map (mark_completed hosp dept_id next_token) (appointments s2)\<rparr>
                 in Inr (Some next_token, s3)))))"

definition cancel_waiting :: "uuid \<Rightarrow> uuid \<Rightarrow> appointment \<Rightarrow> appointment" where
  \<comment> \<open>\<open>UPDATE appointments SET status = 'cancelled' WHERE ... AND status = 'waiting'\<close>\<close>
  "cancel_waiting hosp dept a =
     (if in_department hosp dept a \<and> status a = Waiting
      then a\<lparr>status := Cancelled\<rparr> else a)"

definition reset_department_queue :: "uuid option \<Rightarrow> uuid \<Rightarrow> uuid \<Rightarrow> db \<Rightarrow> error + db" where
  "reset_department_queue auth_uid dept_id hosp s =
     (if \<not> is_hospital_admin s hosp auth_uid then Inl Unauthorized
      else
        (let s1 = (case queue_status s (hosp, dept_id) of
                     None \<Rightarrow> s
                   | Some q \<Rightarrow>
                       s\<lparr>queue_status := (queue_status s)
                           ((hosp, dept_id) \<mapsto> q\<lparr>current_token := 0, total_tokens := 0\<rparr>)\<rparr>);
             s2 = s1\<lparr>appointments := map (cancel_waiting hosp dept_id) (appointments s1)\<rparr>
         in Inr s2))"

text \<open>
  \<open>update_appointment_status(appointment_id_param, new_status, admin_id_param)\<close>. The two
  \<open>SELECT ... INTO\<close> take the first matching row, or NULL when there is none. The guard
  \<open>IF appointment_hospital_id != admin_hospital_id\<close> is taken only when both are not NULL
  and differ. The \<open>UPDATE\<close> has no condition on the current status.
\<close>

definition update_appointment_status ::
  "uuid \<Rightarrow> appointment_status \<Rightarrow> uuid \<Rightarrow> db \<Rightarrow> bool \<times> db" where
  "update_appointment_status appointment_id_param new_status admin_id_param s =
     (let appointment_hospital_id =
            map_option hospital_id
              (find (\<lambda>a. appt_id a = appointment_id_param) (appointments s));
          admin_hospital_id =
            map_option hosp_id
              (find (\<lambda>h. admin_id h = Some admin_id_param) (hospitals s))
      in if (case (appointment_hospital_id, admin_hospital_id) of
               (Some x, Some y) \<Rightarrow> x \<noteq> y
             | _ \<Rightarrow> False)
         then (False, s)
         else (True,
               s\<lparr>appointments :=
                   map (\<lambda>a. if appt_id a = appointment_id_param
                             then a\<lparr>status := new_status\<rparr> else a)
                       (appointments s)\<rparr>))"

text \<open>
  What a caller of one of the two remote procedures leaves behind: the new database when
  the function returns, the old one when it raises.
\<close>

definition after_advance :: "uuid option \<Rightarrow> uuid \<Rightarrow> uuid \<Rightarrow> db \<Rightarrow> db" where
  "after_advance auth_uid dept_id hosp s =
     (case advance_queue auth_uid dept_id hosp s of Inl _ \<Rightarrow> s | Inr (_, s') \<Rightarrow> s')"

definition after_reset :: "uuid option \<Rightarrow> uuid \<Rightarrow> uuid \<Rightarrow> db \<Rightarrow> db" where
  "after_reset auth_uid dept_id hosp s =
     (case reset_department_queue auth_uid dept_id hosp s of Inl _ \<Rightarrow> s | Inr s' \<Rightarrow> s')"

section \<open>Sequences of operations\<close>

text \<open>
  The three operations of the queue core, each with its caller and arguments, applied one
  at a time. \<open>Book\<close> carries the logged-in user (if any), the key the database draws for
  the new appointment, and the hospital and department chosen in the form.
\<close>

datatype operation =
    Book "uuid option" uuid uuid uuid
  | Advance "uuid option" uuid uuid
  | Reset "uuid option" uuid uuid

fun apply_op :: "operation \<Rightarrow> db \<Rightarrow> db" where
  "apply_op (Book user new_id hosp dept) s = snd (onSubmit user new_id hosp dept s)"
| "apply_op (Advance auth_uid dept hosp) s = after_advance auth_uid dept hosp s"
| "apply_op (Reset auth_uid dept hosp) s = after_reset auth_uid dept hosp s"

fun run :: "operation list \<Rightarrow> db \<Rightarrow> db" where
  "run [] s = s"
| "run (x # xs) s = run xs (apply_op x s)"

fun is_advance :: "operation \<Rightarrow> bool" where
  "is_advance (Advance _ _ _) = True"
| "is_advance _ = False"

text \<open>
  Issuances for one department, one for each caller of the list, each finished before the
  next begins.
\<close>

fun issue_tokens :: "uuid list \<Rightarrow> uuid \<Rightarrow> uuid \<Rightarrow> db \<Rightarrow> error + (int list \<times> db)" where
  "issue_tokens [] h d s = Inr ([], s)"
| "issue_tokens (u # us) h d s =
     (case generateTokenNumber s u h d of
        Inl e \<Rightarrow> Inl e
      | Inr (t, s1) \<Rightarrow>
          (case issue_tokens us h d s1 of
             Inl e \<Rightarrow> Inl e
           | Inr (ts, s2) \<Rightarrow> Inr (t # ts, s2)))"

text \<open>
  Two issuances for one department that overlap: nothing orders the storage calls of two
  clients, so both reads may be served before either write. This is that schedule.
\<close>

definition two_overlapping_issues ::
  "db \<Rightarrow> uuid \<Rightarrow> uuid \<Rightarrow> uuid \<Rightarrow> uuid \<Rightarrow> error + (int \<times> int \<times> db)" where
  "two_overlapping_issues s first_uid second_uid h d =
     (let first_read = select_total_tokens s h d;
          second_read = select_total_tokens s h d
      in case generateTokenNumber_write s first_uid h d first_read of
           Inl e \<Rightarrow> Inl e
         | Inr (first_token, s1) \<Rightarrow>
             (case generateTokenNumber_write s1 second_uid h d second_read of
                Inl e \<Rightarrow> Inl e
              | Inr (second_token, s2) \<Rightarrow> Inr (first_token, second_token, s2)))"

section \<open>The properties of the specification\<close>

text \<open>
  The effect of one advance on an appointment, in the words of the specification: the
  Waiting appointment of the department with the new current token becomes Ready, the
  Ready one with the token before it becomes Completed, every other one is kept.
\<close>

definition advance_spec :: "uuid \<Rightarrow> uuid \<Rightarrow> int \<Rightarrow> appointment \<Rightarrow> appointment" where
  "advance_spec hosp dept next_token a =
     (if in_department hosp dept a \<and> status a = Waiting \<and> token_number a = next_token
      then a\<lparr>status := Ready\<rparr>
      else if in_department hosp dept a \<and> status a = Ready \<and> token_number a = next_token - 1
      then a\<lparr>status := Completed\<rparr>
      else a)"

definition completes :: "uuid \<Rightarrow> uuid \<Rightarrow> int \<Rightarrow> appointment \<Rightarrow> appointment" where
  \<comment> \<open>the Ready appointment with the token being served is completed, nothing else changes\<close>
  "completes hosp dept served a =
     (if in_department hosp dept a \<and> status a = Ready \<and> token_number a = served
      then a\<lparr>status := Completed\<rparr> else a)"

definition terminal :: "appointment_status \<Rightarrow> bool" where
  "terminal st = (st = Completed \<or> st = Cancelled)"

definition counter_within :: "db \<Rightarrow> uuid \<Rightarrow> uuid \<Rightarrow> bool" where
  \<comment> \<open>\<open>currentToken \<le> totalIssued\<close> for the queue record of a department, if it has one\<close>
  "counter_within s hosp dept =
     (case queue_status s (hosp, dept) of
        None \<Rightarrow> True
      | Some q \<Rightarrow> current_token q \<le> total_tokens q)"

fun advance_has_next :: "db \<Rightarrow> uuid \<Rightarrow> uuid \<Rightarrow> operation \<Rightarrow> bool" where
  \<comment> \<open>an advance that moves the counter of the department is called while an issued token
      has not been called yet; rejected calls and other departments are not bound\<close>
  "advance_has_next s hosp dept (Advance auth_uid d h) =
     (if h = hosp \<and> d = dept \<and> is_hospital_admin s h auth_uid
      then (case queue_status s (h, d) of
              None \<Rightarrow> True
            | Some q \<Rightarrow> integer_max \<le> current_token q \<or> current_token q < total_tokens q)
      else True)"
| "advance_has_next s hosp dept _ = True"

fun advances_have_next :: "operation list \<Rightarrow> uuid \<Rightarrow> uuid \<Rightarrow> db \<Rightarrow> bool" where
  "advances_have_next [] hosp dept s = True"
| "advances_have_next (x # xs) hosp dept s =
     (advance_has_next s hosp dept x \<and> advances_have_next xs hosp dept (apply_op x s))"








definition issued_so_far :: "db \<Rightarrow> uuid \<Rightarrow> uuid \<Rightarrow> int" where
  \<comment> \<open>\<open>total_tokens\<close> of a department, 0 while it has no record\<close>
  "issued_so_far s h d = (case queue_status s (h, d) of None \<Rightarrow> 0 | Some q \<Rightarrow> total_tokens q)"

definition issuable :: "db \<Rightarrow> uuid \<Rightarrow> uuid \<Rightarrow> bool" where
  \<comment> \<open>the department has a queue record, or is registered so that one can be created\<close>
  "issuable s h d =
     (case queue_status s (h, d) of None \<Rightarrow> department_exists s d | Some q \<Rightarrow> True)"

definition behind_counter :: "db \<Rightarrow> nat \<Rightarrow> bool" where
  \<comment> \<open>the \<open>i\<close>-th appointment is Waiting with a token the counter of its department has reached\<close>
  "behind_counter s i =
     (i < length (appointments s) \<and> status (appointments s ! i) = Waiting \<and>
      (case queue_status s (hospital_id (appointments s ! i), department_id (appointments s ! i)) of
         None \<Rightarrow> False
       | Some q \<Rightarrow> token_number (appointments s ! i) \<le> current_token q))"

section \<open>Example databases\<close>

text \<open>
  Hospital 1 is administered by user 7; its departments are 1 and 2. The other users are
  patients.
\<close>

definition city_hospital :: hospital where
  "city_hospital = \<lparr>hosp_id = 1, admin_id = Some 7\<rparr>"

definition city_users :: "uuid list" where
  "city_users = [3, 4, 5, 6, 7, 8, 9]"

definition city_departments :: "department list" where
  "city_departments = [\<lparr>dep_id = 1, dep_hospital_id = 1\<rparr>, \<lparr>dep_id = 2, dep_hospital_id = 1\<rparr>]"

definition fresh_db :: db where
  \<comment> \<open>department 1 with a zeroed queue record, department 2 without one, no appointments\<close>
  "fresh_db = \<lparr>users = city_users, hospitals = [city_hospital], departments = city_departments,
               queue_status = [(1, 1) \<mapsto> \<lparr>current_token = 0, total_tokens = 0\<rparr>],
               appointments = []\<rparr>"

definition once_db :: db where
  \<comment> \<open>\<open>fresh_db\<close> after one token was issued\<close>
  "once_db = \<lparr>users = city_users, hospitals = [city_hospital], departments = city_departments,
              queue_status = [(1, 1) \<mapsto> \<lparr>current_token = 0, total_tokens = 1\<rparr>],
              appointments = []\<rparr>"

definition full_db :: db where
  \<comment> \<open>the counters at the largest value of the column type\<close>
  "full_db = \<lparr>users = city_users, hospitals = [city_hospital], departments = city_departments,
              queue_status = [(1, 1) \<mapsto> \<lparr>current_token = 2147483647, total_tokens = 2147483647\<rparr>],
              appointments = []\<rparr>"

definition serving_db :: db where
  \<comment> \<open>token 1 was issued and called: it is Ready, and the counters are equal\<close>
  "serving_db = \<lparr>users = city_users, hospitals = [city_hospital], departments = city_departments,
                 queue_status = [(1, 1) \<mapsto> \<lparr>current_token = 1, total_tokens = 1\<rparr>],
                 appointments = [\<lparr>appt_id = 10, user_id = 3, hospital_id = 1,
                                  department_id = 1, token_number = 1, status = Ready\<rparr>]\<rparr>"

definition done_db :: db where
  \<comment> \<open>token 1 is Completed, token 2 is Ready\<close>
  "done_db = \<lparr>users = city_users, hospitals = [city_hospital], departments = city_departments,
              queue_status = [(1, 1) \<mapsto> \<lparr>current_token = 2, total_tokens = 2\<rparr>],
              appointments = [\<lparr>appt_id = 10, user_id = 3, hospital_id = 1,
                               department_id = 1, token_number = 1, status = Completed\<rparr>,
                              \<lparr>appt_id = 11, user_id = 4, hospital_id = 1,
                               department_id = 1, token_number = 2, status = Ready\<rparr>]\<rparr>"

definition scenario_b_db :: db where
  \<comment> \<open>Scenario B of the specification, with an appointment of department 2 beside it\<close>
  "scenario_b_db = \<lparr>users = city_users, hospitals = [city_hospital],
     departments = city_departments,
     queue_status = [(1, 1) \<mapsto> \<lparr>current_token = 1, total_tokens = 3\<rparr>,
                     (1, 2) \<mapsto> \<lparr>current_token = 1, total_tokens = 2\<rparr>],
     appointments =
       [\<lparr>appt_id = 10, user_id = 3, hospital_id = 1, department_id = 1, token_number = 1, status = Ready\<rparr>,
        \<lparr>appt_id = 11, user_id = 4, hospital_id = 1, department_id = 1, token_number = 2, status = Waiting\<rparr>,
        \<lparr>appt_id = 12, user_id = 5, hospital_id = 1, department_id = 1, token_number = 3, status = Waiting\<rparr>,
        \<lparr>appt_id = 13, user_id = 6, hospital_id = 1, department_id = 2, token_number = 2, status = Waiting\<rparr>]\<rparr>"

definition scenario_c_db :: db where
  \<comment> \<open>Scenario C: three Waiting appointments and \<open>total_tokens = 5\<close> in department 1\<close>
  "scenario_c_db = \<lparr>users = city_users, hospitals = [city_hospital],
     departments = city_departments,
     queue_status = [(1, 1) \<mapsto> \<lparr>current_token = 2, total_tokens = 5\<rparr>,
                     (1, 2) \<mapsto> \<lparr>current_token = 0, total_tokens = 1\<rparr>],
     appointments =
       [\<lparr>appt_id = 10, user_id = 3, hospital_id = 1, department_id = 1, token_number = 1, status = Completed\<rparr>,
        \<lparr>appt_id = 11, user_id = 4, hospital_id = 1, department_id = 1, token_number = 2, status = Ready\<rparr>,
        \<lparr>appt_id = 12, user_id = 5, hospital_id = 1, department_id = 1, token_number = 3, status = Waiting\<rparr>,
        \<lparr>appt_id = 13, user_id = 6, hospital_id = 1, department_id = 1, token_number = 4, status = Waiting\<rparr>,
        \<lparr>appt_id = 14, user_id = 8, hospital_id = 1, department_id = 1, token_number = 5, status = Waiting\<rparr>,
        \<lparr>appt_id = 15, user_id = 9, hospital_id = 1, department_id = 2, token_number = 1, status = Waiting\<rparr>]\<rparr>"

definition overtaken_ops :: "operation list" where
  \<comment> \<open>the admin books, advances twice (the second time past the last issued token), and
      books again\<close>
  "overtaken_ops = [Book (Some 7) 10 1 1, Advance (Some 7) 1 1, Advance (Some 7) 1 1,
                    Book (Some 7) 11 1 1]"




definition guarded_ops :: "operation list" where
  \<comment> \<open>the admin books and calls the token; user 8 tries an advance at equal counters and
      is rejected; the admin resets; a patient books\<close>
  "guarded_ops = [Book (Some 7) 10 1 1, Advance (Some 7) 1 1, Advance (Some 8) 1 1,
                  Reset (Some 7) 1 1, Book (Some 3) 11 1 1]"

section \<open>How each operation changes the database\<close>

lemmas run_simps = after_advance_def advance_queue_def after_reset_def
  reset_department_queue_def onSubmit_def generateTokenNumber_def generateTokenNumber_write_def
  select_total_tokens_def insert_appointment_def or_zero_def is_hospital_admin_def
  integer_max_def mark_ready_def mark_completed_def cancel_waiting_def in_department_def Let_def
  queue_status_write_policy_def appointments_insert_policy_def user_exists_def
  hospital_exists_def department_exists_def city_users_def city_departments_def

lemma queue_row_zeroed:
  "q\<lparr>current_token := 0, total_tokens := 0\<rparr> = \<lparr>current_token = 0, total_tokens = 0\<rparr>"
  by (cases q) simp

text \<open>The write policy of \<open>queue_status\<close> admits exactly the admins of the row's hospital.\<close>

lemma write_policy_admin:
  "queue_status_write_policy s u h = is_hospital_admin s h (Some u)"
  by (auto simp: queue_status_write_policy_def is_hospital_admin_def list_ex_iff
           split: option.splits)

lemma admin_hospital_exists:
  "is_hospital_admin s h u \<Longrightarrow> hospital_exists s h"
  by (auto simp: is_hospital_admin_def hospital_exists_def list_ex_iff)

lemma generateTokenNumber_Inr:
  assumes "generateTokenNumber s u h d = Inr (t, s')"
  shows "(queue_status s (h, d) = None \<and> t = 1 \<and> is_hospital_admin s h (Some u) \<and>
          s' = s\<lparr>queue_status := (queue_status s)((h, d) \<mapsto> \<lparr>current_token = 0, total_tokens = 1\<rparr>)\<rparr>)
       \<or> (\<exists>q. queue_status s (h, d) = Some q \<and> t = total_tokens q + 1 \<and> t \<le> integer_max \<and>
               s' = (if is_hospital_admin s h (Some u)
                     then s\<lparr>queue_status := (queue_status s)((h, d) \<mapsto> q\<lparr>total_tokens := t\<rparr>)\<rparr>
                     else s))"
proof (cases "queue_status s (h, d)")
  case None
  with assms show ?thesis
    by (simp add: generateTokenNumber_def generateTokenNumber_write_def select_total_tokens_def
                  write_policy_admin split: if_splits)
next
  case (Some q)
  with assms show ?thesis
    by (simp add: generateTokenNumber_def generateTokenNumber_write_def select_total_tokens_def
                  write_policy_admin or_zero_def Let_def split: if_splits) auto
qed

lemma generateTokenNumber_effect:
  assumes "generateTokenNumber s u h d = Inr (t, s1)"
  shows "appointments s1 = appointments s"
    and "hospitals s1 = hospitals s"
    and "k \<noteq> (h, d) \<Longrightarrow> queue_status s1 k = queue_status s k"
    and "queue_status s (h, d) = Some q \<Longrightarrow> t = total_tokens q + 1"
    and "is_hospital_admin s h (Some u) \<Longrightarrow>
           \<exists>q1. queue_status s1 (h, d) = Some q1 \<and> total_tokens q1 = t"
    and "\<not> is_hospital_admin s h (Some u) \<Longrightarrow> s1 = s"
proof -
  have "appointments s1 = appointments s
     \<and> hospitals s1 = hospitals s
     \<and> (k \<noteq> (h, d) \<longrightarrow> queue_status s1 k = queue_status s k)
     \<and> (queue_status s (h, d) = Some q \<longrightarrow> t = total_tokens q + 1)
     \<and> (is_hospital_admin s h (Some u) \<longrightarrow>
           (\<exists>q1. queue_status s1 (h, d) = Some q1 \<and> total_tokens q1 = t))
     \<and> (\<not> is_hospital_admin s h (Some u) \<longrightarrow> s1 = s)"
    using generateTokenNumber_Inr [OF assms]
  proof (elim disjE conjE exE)
    assume "queue_status s (h, d) = None" "t = 1" "is_hospital_admin s h (Some u)"
      "s1 = s\<lparr>queue_status := (queue_status s)((h, d) \<mapsto> \<lparr>current_token = 0, total_tokens = 1\<rparr>)\<rparr>"
    then show ?thesis by simp
  next
    fix q0
    assume "queue_status s (h, d) = Some q0" "t = total_tokens q0 + 1" "t \<le> integer_max"
      "s1 = (if is_hospital_admin s h (Some u)
             then s\<lparr>queue_status := (queue_status s)((h, d) \<mapsto> q0\<lparr>total_tokens := t\<rparr>)\<rparr>
             else s)"
    then show ?thesis by simp
  qed
  then show "appointments s1 = appointments s"
    and "hospitals s1 = hospitals s"
    and "k \<noteq> (h, d) \<Longrightarrow> queue_status s1 k = queue_status s k"
    and "queue_status s (h, d) = Some q \<Longrightarrow> t = total_tokens q + 1"
    and "is_hospital_admin s h (Some u) \<Longrightarrow>
           \<exists>q1. queue_status s1 (h, d) = Some q1 \<and> total_tokens q1 = t"
    and "\<not> is_hospital_admin s h (Some u) \<Longrightarrow> s1 = s"
    by simp_all
qed

lemma generateTokenNumber_total:
  assumes "queue_status s (h, d) = Some q" and "total_tokens q < integer_max"
  shows "generateTokenNumber s u h d =
           Inr (total_tokens q + 1,
                if queue_status_write_policy s u h
                then s\<lparr>queue_status := (queue_status s)
                         ((h, d) \<mapsto> q\<lparr>total_tokens := total_tokens q + 1\<rparr>)\<rparr>
                else s)"
  using assms
  by (simp add: generateTokenNumber_def generateTokenNumber_write_def select_total_tokens_def
                or_zero_def Let_def)

lemma generateTokenNumber_next:
  assumes "is_hospital_admin s h (Some u)" and "issuable s h d"
      and "issued_so_far s h d < integer_max"
  shows "\<exists>s1. generateTokenNumber s u h d = Inr (issued_so_far s h d + 1, s1)
             \<and> issued_so_far s1 h d = issued_so_far s h d + 1
             \<and> hospitals s1 = hospitals s \<and> issuable s1 h d"
proof (cases "queue_status s (h, d)")
  case None
  with assms admin_hospital_exists [OF assms(1)] show ?thesis
    by (simp add: generateTokenNumber_def generateTokenNumber_write_def select_total_tokens_def
                  issued_so_far_def issuable_def write_policy_admin)
next
  case (Some q)
  with assms show ?thesis
    by (simp add: generateTokenNumber_def generateTokenNumber_write_def select_total_tokens_def
                  issued_so_far_def issuable_def write_policy_admin or_zero_def Let_def)
qed

lemma onSubmit_cases:
  obtains (unchanged) "snd (onSubmit user new_id h d s) = s"
  | (issued) t s1 u where "generateTokenNumber s u h d = Inr (t, s1)"
      and "snd (onSubmit user new_id h d s) = s1" and "user = Some u"
  | (booked) t s1 u where "generateTokenNumber s u h d = Inr (t, s1)"
      and "snd (onSubmit user new_id h d s) =
             s1\<lparr>appointments := appointments s1 @
                   [\<lparr>appt_id = new_id, user_id = u, hospital_id = h, department_id = d,
                     token_number = t, status = Waiting\<rparr>]\<rparr>"
      and "user = Some u"
      and "fst (onSubmit user new_id h d s) =
             Booked \<lparr>appt_id = new_id, user_id = u, hospital_id = h, department_id = d,
                     token_number = t, status = Waiting\<rparr>"
proof (cases user)
  case None
  then have "snd (onSubmit user new_id h d s) = s" by (simp add: onSubmit_def)
  then show ?thesis by (rule unchanged)
next
  case (Some u)
  show ?thesis
  proof (cases "generateTokenNumber s u h d")
    case (Inl e)
    with Some have "snd (onSubmit user new_id h d s) = s" by (simp add: onSubmit_def)
    then show ?thesis by (rule unchanged)
  next
    case (Inr r)
    obtain t s1 where r: "r = (t, s1)" by (cases r)
    let ?a = "\<lparr>appt_id = new_id, user_id = u, hospital_id = h, department_id = d,
               token_number = t, status = Waiting\<rparr>"
    show ?thesis
    proof (cases "insert_appointment s1 u ?a")
      case (Inl e)
      with Some Inr r have "snd (onSubmit user new_id h d s) = s1"
        by (simp add: onSubmit_def Let_def)
      with Inr r Some show ?thesis by (auto intro: issued)
    next
      case ins: (Inr s2)
      then have "s2 = s1\<lparr>appointments := appointments s1 @ [?a]\<rparr>"
        by (simp add: insert_appointment_def split: if_splits)
      with ins Some Inr r have sn: "snd (onSubmit user new_id h d s) =
             s1\<lparr>appointments := appointments s1 @ [?a]\<rparr>"
        and fs: "fst (onSubmit user new_id h d s) = Booked ?a"
        by (simp_all add: onSubmit_def Let_def)
      from Inr r have "generateTokenNumber s u h d = Inr (t, s1)" by simp
      from this sn Some fs show ?thesis by (rule booked)
    qed
  qed
qed


lemma is_hospital_admin_hospitals:
  "hospitals s' = hospitals s \<Longrightarrow> is_hospital_admin s' h u = is_hospital_admin s h u"
  by (simp add: is_hospital_admin_def)

lemma after_advance_cases:
  obtains (unchanged) "after_advance u d h s = s"
  | (advanced) q where "is_hospital_admin s h u" and "queue_status s (h, d) = Some q"
      and "current_token q < integer_max"
      and "after_advance u d h s =
             s\<lparr>queue_status := (queue_status s)((h, d) \<mapsto> q\<lparr>current_token := current_token q + 1\<rparr>),
               appointments := map (mark_completed h d (current_token q + 1))
                                 (map (mark_ready h d (current_token q + 1)) (appointments s))\<rparr>"
proof (cases "is_hospital_admin s h u")
  case False
  then have "after_advance u d h s = s" by (simp add: after_advance_def advance_queue_def)
  then show ?thesis by (rule unchanged)
next
  case True
  show ?thesis
  proof (cases "queue_status s (h, d)")
    case None
    with True have "after_advance u d h s = s" by (simp add: after_advance_def advance_queue_def)
    then show ?thesis by (rule unchanged)
  next
    case (Some q)
    show ?thesis
    proof (cases "current_token q < integer_max")
      case False
      with True Some have "after_advance u d h s = s"
        by (simp add: after_advance_def advance_queue_def Let_def)
      then show ?thesis by (rule unchanged)
    next
      case lt: True
      with True Some have "after_advance u d h s =
             s\<lparr>queue_status := (queue_status s)((h, d) \<mapsto> q\<lparr>current_token := current_token q + 1\<rparr>),
               appointments := map (mark_completed h d (current_token q + 1))
                                 (map (mark_ready h d (current_token q + 1)) (appointments s))\<rparr>"
        by (simp add: after_advance_def advance_queue_def Let_def)
      with True Some lt show ?thesis by (rule advanced)
    qed
  qed
qed

lemma after_reset_cases:
  obtains (unchanged) "after_reset u d h s = s"
  | (no_record) "is_hospital_admin s h u" and "queue_status s (h, d) = None"
      and "after_reset u d h s = s\<lparr>appointments := map (cancel_waiting h d) (appointments s)\<rparr>"
  | (zeroed) q where "is_hospital_admin s h u" and "queue_status s (h, d) = Some q"
      and "after_reset u d h s =
             s\<lparr>queue_status := (queue_status s)((h, d) \<mapsto> \<lparr>current_token = 0, total_tokens = 0\<rparr>),
               appointments := map (cancel_waiting h d) (appointments s)\<rparr>"
proof (cases "is_hospital_admin s h u")
  case False
  then have "after_reset u d h s = s" by (simp add: after_reset_def reset_department_queue_def)
  then show ?thesis by (rule unchanged)
next
  case True
  show ?thesis
  proof (cases "queue_status s (h, d)")
    case None
    with True have "after_reset u d h s = s\<lparr>appointments := map (cancel_waiting h d) (appointments s)\<rparr>"
      by (simp add: after_reset_def reset_department_queue_def)
    with True None show ?thesis by (rule no_record)
  next
    case (Some q)
    with True have "after_reset u d h s =
             s\<lparr>queue_status := (queue_status s)((h, d) \<mapsto> \<lparr>current_token = 0, total_tokens = 0\<rparr>),
               appointments := map (cancel_waiting h d) (appointments s)\<rparr>"
      by (simp add: after_reset_def reset_department_queue_def queue_row_zeroed)
    with True Some show ?thesis by (rule zeroed)
  qed
qed

lemma mark_fields [simp]:
  "token_number (mark_ready h d n a) = token_number a"
  "token_number (mark_completed h d n a) = token_number a"
  "token_number (cancel_waiting h d a) = token_number a"
  "in_department h' d' (mark_ready h d n a) = in_department h' d' a"
  "in_department h' d' (mark_completed h d n a) = in_department h' d' a"
  "in_department h' d' (cancel_waiting h d a) = in_department h' d' a"
  by (simp_all add: mark_ready_def mark_completed_def cancel_waiting_def in_department_def)

lemma mark_completed_mark_ready:
  "mark_completed hosp dept n (mark_ready hosp dept n a) = advance_spec hosp dept n a"
  by (simp add: mark_completed_def mark_ready_def advance_spec_def in_department_def)



section \<open>Authorization\<close>

text \<open>
  C8. For every caller who is not an admin of the hospital, \<open>advance_queue\<close> and
  \<open>reset_department_queue\<close> raise \<open>Unauthorized\<close>, and the database the call leaves behind
  is the one it found: counters and appointments are as before.
\<close>

theorem unauthorized_rejected_unchanged:
  assumes "\<not> is_hospital_admin s hosp auth_uid"
  shows "advance_queue auth_uid dept hosp s = Inl Unauthorized
       \<and> reset_department_queue auth_uid dept hosp s = Inl Unauthorized
       \<and> after_advance auth_uid dept hosp s = s
       \<and> after_reset auth_uid dept hosp s = s"
  using assms
  by (simp add: advance_queue_def reset_department_queue_def after_advance_def after_reset_def)

text \<open>User 8 is not the admin of hospital 1.\<close>

theorem unauthorized_rejected_unchanged_witness:
  "\<not> is_hospital_admin fresh_db 1 (Some 8)
   \<and> advance_queue (Some 8) 1 1 fresh_db = Inl Unauthorized
   \<and> reset_department_queue (Some 8) 1 1 fresh_db = Inl Unauthorized
   \<and> after_advance (Some 8) 1 1 fresh_db = fresh_db
   \<and> after_reset (Some 8) 1 1 fresh_db = fresh_db"
proof -
  have h: "\<not> is_hospital_admin fresh_db 1 (Some 8)"
    by (simp add: is_hospital_admin_def fresh_db_def city_hospital_def)
  show ?thesis
    using h unauthorized_rejected_unchanged [OF h, of 1] by simp
qed

section \<open>Advancing the queue\<close>

text \<open>
  C7, as the code has it. When an admin of the hospital advances a department that has no
  \<open>queue_status\<close> record, \<open>advance_queue\<close> raises nothing: it returns NULL and leaves the
  database unchanged.
\<close>

theorem advance_missing_record:
  assumes "is_hospital_admin s hosp auth_uid"
      and "queue_status s (hosp, dept) = None"
  shows "advance_queue auth_uid dept hosp s = Inr (None, s)
       \<and> after_advance auth_uid dept hosp s = s"
  using assms by (simp add: advance_queue_def after_advance_def)

text \<open>
  Department 2 of hospital 1 has no record in \<open>fresh_db\<close>: the call by the admin returns
  (with NULL) where the specification expects a DepartmentNotFound error.
\<close>

theorem advance_missing_record_counterexample:
  "is_hospital_admin fresh_db 1 (Some 7) \<and> queue_status fresh_db (1, 2) = None
   \<and> advance_queue (Some 7) 2 1 fresh_db = Inr (None, fresh_db)"
  by (simp add: advance_queue_def is_hospital_admin_def fresh_db_def city_hospital_def)

theorem advance_missing_record_witness:
  "is_hospital_admin fresh_db 1 (Some 7) \<and> queue_status fresh_db (1, 2) = None
   \<and> after_advance (Some 7) 2 1 fresh_db = fresh_db"
proof -
  have a: "is_hospital_admin fresh_db 1 (Some 7)"
    by (simp add: is_hospital_admin_def fresh_db_def city_hospital_def)
  have n: "queue_status fresh_db (1, 2) = None"
    by (simp add: fresh_db_def)
  show ?thesis using a n advance_missing_record [OF a n] by simp
qed

text \<open>
  C4, with the range of the column. For every database in which the department has a
  queue record with \<open>current_token\<close> below 2147483647, and every caller who is an admin of
  the hospital, \<open>advance_queue\<close> returns \<open>next = current_token + 1\<close>, stores it as the new
  \<open>current_token\<close>, and changes the appointments as \<open>advance_spec\<close> says: Waiting with token
  \<open>next\<close> becomes Ready, Ready with token \<open>next - 1\<close> becomes Completed, all others are kept.
  Nothing else in the database changes.
\<close>

theorem advance_queue_effect:
  assumes "is_hospital_admin s hosp auth_uid"
      and "queue_status s (hosp, dept) = Some q"
      and "current_token q < integer_max"
  shows "advance_queue auth_uid dept hosp s =
           Inr (Some (current_token q + 1),
                s\<lparr>queue_status := (queue_status s)
                     ((hosp, dept) \<mapsto> q\<lparr>current_token := current_token q + 1\<rparr>),
                  appointments := map (advance_spec hosp dept (current_token q + 1))
                                      (appointments s)\<rparr>)"
  using assms
  by (simp add: advance_queue_def Let_def mark_completed_mark_ready comp_def)

text \<open>
  At \<open>current_token = 2147483647\<close> the increment leaves the range of \<open>integer\<close>: the call of
  the admin raises and nothing is advanced.
\<close>

theorem advance_queue_effect_counterexample:
  "is_hospital_admin full_db 1 (Some 7)
   \<and> queue_status full_db (1, 1) = Some \<lparr>current_token = 2147483647, total_tokens = 2147483647\<rparr>
   \<and> advance_queue (Some 7) 1 1 full_db = Inl NumericValueOutOfRange"
  by (simp add: advance_queue_def is_hospital_admin_def full_db_def city_hospital_def integer_max_def)

text \<open>Scenario B: the call returns 2, token 1 is completed, token 2 is called.\<close>

theorem advance_queue_effect_witness:
  "is_hospital_admin scenario_b_db 1 (Some 7)
   \<and> queue_status scenario_b_db (1, 1) = Some \<lparr>current_token = 1, total_tokens = 3\<rparr>
   \<and> (1::int) < integer_max
   \<and> map_sum id fst (advance_queue (Some 7) 1 1 scenario_b_db) = Inr (Some 2)
   \<and> queue_status (after_advance (Some 7) 1 1 scenario_b_db) (1, 1)
        = Some \<lparr>current_token = 2, total_tokens = 3\<rparr>
   \<and> map status (appointments (after_advance (Some 7) 1 1 scenario_b_db))
        = [Completed, Ready, Waiting, Waiting]"
proof -
  have a: "is_hospital_admin scenario_b_db 1 (Some 7)"
    by (simp add: is_hospital_admin_def scenario_b_db_def city_hospital_def)
  have q: "queue_status scenario_b_db (1, 1) = Some \<lparr>current_token = 1, total_tokens = 3\<rparr>"
    by (simp add: scenario_b_db_def)
  have l: "current_token \<lparr>current_token = 1, total_tokens = 3\<rparr> < integer_max"
    by (simp add: integer_max_def)
  show ?thesis
    using a q l advance_queue_effect [OF a q l]
    by (simp add: after_advance_def advance_spec_def in_department_def scenario_b_db_def)
qed

text \<open>
  C6, as the code has it. For every database in which the department has a queue record
  with \<open>total_tokens \<le> current_token < 2147483647\<close> and no Waiting appointment of the
  department has a token above \<open>total_tokens\<close>, and every caller who is an admin of the hospital,
  \<open>advance_queue\<close> raises no error, returns and stores \<open>current_token + 1\<close>, and changes no
  appointment but one: a Ready appointment of the department whose token is the old
  \<open>current_token\<close> becomes Completed.
\<close>

theorem empty_advance:
  assumes "is_hospital_admin s hosp auth_uid"
      and "queue_status s (hosp, dept) = Some q"
      and "current_token q < integer_max"
      and "total_tokens q \<le> current_token q"
      and "\<forall>a \<in> set (appointments s).
             in_department hosp dept a \<and> status a = Waiting \<longrightarrow> token_number a \<le> total_tokens q"
  shows "advance_queue auth_uid dept hosp s =
           Inr (Some (current_token q + 1),
                s\<lparr>queue_status := (queue_status s)
                     ((hosp, dept) \<mapsto> q\<lparr>current_token := current_token q + 1\<rparr>),
                  appointments := map (completes hosp dept (current_token q)) (appointments s)\<rparr>)"
proof -
  have "map (mark_completed hosp dept (current_token q + 1))
          (map (mark_ready hosp dept (current_token q + 1)) (appointments s))
        = map (completes hosp dept (current_token q)) (appointments s)"
    using assms(4,5)
    by (auto simp: mark_completed_def mark_ready_def completes_def)
  with assms(1-3) show ?thesis
    by (simp add: advance_queue_def Let_def)
qed

text \<open>
  In \<open>serving_db\<close> the counters are equal (1 and 1) and token 1 is Ready. The advance of
  the admin completes it: an appointment has changed.
\<close>

theorem empty_advance_counterexample:
  "is_hospital_admin serving_db 1 (Some 7)
   \<and> map_option current_token (queue_status serving_db (1, 1)) = Some 1
   \<and> map_option total_tokens (queue_status serving_db (1, 1)) = Some 1
   \<and> map status (appointments serving_db) = [Ready]
   \<and> map status (appointments (after_advance (Some 7) 1 1 serving_db)) = [Completed]"
  by (simp add: after_advance_def advance_queue_def is_hospital_admin_def serving_db_def
      city_hospital_def integer_max_def mark_ready_def mark_completed_def in_department_def)

theorem empty_advance_witness:
  "is_hospital_admin serving_db 1 (Some 7)
   \<and> queue_status serving_db (1, 1) = Some \<lparr>current_token = 1, total_tokens = 1\<rparr>
   \<and> map token_number (appointments serving_db) = [1]
   \<and> map_sum id fst (advance_queue (Some 7) 1 1 serving_db) = Inr (Some 2)
   \<and> queue_status (after_advance (Some 7) 1 1 serving_db) (1, 1)
        = Some \<lparr>current_token = 2, total_tokens = 1\<rparr>
   \<and> map status (appointments (after_advance (Some 7) 1 1 serving_db)) = [Completed]"
proof -
  have a: "is_hospital_admin serving_db 1 (Some 7)"
    by (simp add: is_hospital_admin_def serving_db_def city_hospital_def)
  have q: "queue_status serving_db (1, 1) = Some \<lparr>current_token = 1, total_tokens = 1\<rparr>"
    by (simp add: serving_db_def)
  have l: "current_token \<lparr>current_token = 1, total_tokens = 1\<rparr> < integer_max"
    by (simp add: integer_max_def)
  have e: "total_tokens \<lparr>current_token = 1, total_tokens = 1\<rparr>
           \<le> current_token \<lparr>current_token = 1, total_tokens = 1\<rparr>" by simp
  have b: "\<forall>a \<in> set (appointments serving_db). in_department 1 1 a \<and> status a = Waiting \<longrightarrow>
             token_number a \<le> total_tokens \<lparr>current_token = 1, total_tokens = 1\<rparr>"
    by (simp add: serving_db_def)
  have t: "map token_number (appointments serving_db) = [1]"
    by (simp add: serving_db_def)
  show ?thesis
    using a q t empty_advance [OF a q l e b]
    by (simp add: after_advance_def completes_def in_department_def serving_db_def)
qed

section \<open>Resetting the queue\<close>

text \<open>
  C9, with the queue record it needs. For every database in which the department has a
  queue record, and every caller who is an admin of the hospital,
  \<open>reset_department_queue\<close> raises nothing; it sets \<open>current_token = 0\<close> and
  \<open>total_tokens = 0\<close> in that record; exactly the appointments of the department whose
  status is Waiting become Cancelled; the Ready, Completed and Cancelled ones, the
  appointments of other departments and every other queue record are unchanged.
\<close>

theorem reset_effect:
  assumes "is_hospital_admin s hosp auth_uid"
      and "queue_status s (hosp, dept) = Some q"
  shows "reset_department_queue auth_uid dept hosp s =
           Inr (s\<lparr>queue_status :=
                     (queue_status s)((hosp, dept) \<mapsto> \<lparr>current_token = 0, total_tokens = 0\<rparr>),
                   appointments :=
                     map (\<lambda>a. if in_department hosp dept a \<and> status a = Waiting
                               then a\<lparr>status := Cancelled\<rparr> else a)
                         (appointments s)\<rparr>)"
proof -
  have c: "cancel_waiting hosp dept =
             (\<lambda>a. if in_department hosp dept a \<and> status a = Waiting
                   then a\<lparr>status := Cancelled\<rparr> else a)"
    by (auto simp: cancel_waiting_def)
  from assms show ?thesis
    by (simp add: reset_department_queue_def c queue_row_zeroed)
qed

text \<open>
  Department 2 of hospital 1 has no queue record in \<open>fresh_db\<close>. The reset by the admin
  returns without an error and creates none: the department has no \<open>current_token\<close> and
  no \<open>total_tokens\<close> afterwards, and an advance still finds no counter and returns NULL.
\<close>

theorem reset_effect_counterexample:
  "is_hospital_admin fresh_db 1 (Some 7)
   \<and> queue_status fresh_db (1, 2) = None
   \<and> reset_department_queue (Some 7) 2 1 fresh_db = Inr fresh_db
   \<and> queue_status (after_reset (Some 7) 2 1 fresh_db) (1, 2) = None
   \<and> advance_queue (Some 7) 2 1 (after_reset (Some 7) 2 1 fresh_db) = Inr (None, fresh_db)"
  by (simp add: after_reset_def reset_department_queue_def advance_queue_def
                is_hospital_admin_def fresh_db_def city_hospital_def)

text \<open>
  Scenario C: the three Waiting appointments of department 1 are cancelled, its Ready and
  Completed ones stay, and department 2 keeps its counters and its Waiting appointment.
\<close>

theorem reset_effect_witness:
  "is_hospital_admin scenario_c_db 1 (Some 7)
   \<and> queue_status scenario_c_db (1, 1) = Some \<lparr>current_token = 2, total_tokens = 5\<rparr>
   \<and> queue_status (after_reset (Some 7) 1 1 scenario_c_db) (1, 1)
        = Some \<lparr>current_token = 0, total_tokens = 0\<rparr>
   \<and> queue_status (after_reset (Some 7) 1 1 scenario_c_db) (1, 2)
        = Some \<lparr>current_token = 0, total_tokens = 1\<rparr>
   \<and> map status (appointments (after_reset (Some 7) 1 1 scenario_c_db))
        = [Completed, Ready, Cancelled, Cancelled, Cancelled, Waiting]"
proof -
  have a: "is_hospital_admin scenario_c_db 1 (Some 7)"
    by (simp add: is_hospital_admin_def scenario_c_db_def city_hospital_def)
  have q: "queue_status scenario_c_db (1, 1) = Some \<lparr>current_token = 2, total_tokens = 5\<rparr>"
    by (simp add: scenario_c_db_def)
  show ?thesis
    using a q reset_effect [OF a q]
    by (simp add: after_reset_def in_department_def scenario_c_db_def)
qed

section \<open>Terminal states\<close>

lemma length_after_advance:
  "length (appointments (after_advance u d h s)) = length (appointments s)"
  by (cases rule: after_advance_cases [of u d h s]) simp_all

lemma length_after_reset:
  "length (appointments (after_reset u d h s)) = length (appointments s)"
  by (cases rule: after_reset_cases [of u d h s]) simp_all

lemma advance_keeps_terminal:
  assumes "i < length (appointments s)" and "terminal (status (appointments s ! i))"
  shows "appointments (after_advance u d h s) ! i = appointments s ! i"
proof (cases rule: after_advance_cases [of u d h s])
  case unchanged
  then show ?thesis by simp
next
  case (advanced q)
  with assms show ?thesis
    by (auto simp: mark_ready_def mark_completed_def terminal_def)
qed

lemma reset_keeps_terminal:
  assumes "i < length (appointments s)" and "terminal (status (appointments s ! i))"
  shows "appointments (after_reset u d h s) ! i = appointments s ! i"
proof (cases rule: after_reset_cases [of u d h s])
  case unchanged
  then show ?thesis by simp
next
  case no_record
  with assms show ?thesis by (auto simp: cancel_waiting_def terminal_def)
next
  case (zeroed q)
  with assms show ?thesis by (auto simp: cancel_waiting_def terminal_def)
qed

lemma onSubmit_keeps_earlier:
  assumes "i < length (appointments s)"
  shows "i < length (appointments (snd (onSubmit user new_id h d s)))
       \<and> appointments (snd (onSubmit user new_id h d s)) ! i = appointments s ! i"
proof (cases rule: onSubmit_cases [of user new_id h d s])
  case unchanged
  with assms show ?thesis by simp
next
  case (issued t s1 u)
  with assms generateTokenNumber_effect(1) [OF issued(1)] show ?thesis by simp
next
  case (booked t s1 u)
  with assms generateTokenNumber_effect(1) [OF booked(1)] show ?thesis
    by (simp add: nth_append)
qed

lemma apply_op_keeps_terminal:
  assumes "i < length (appointments s)" and "terminal (status (appointments s ! i))"
  shows "i < length (appointments (apply_op x s))
       \<and> appointments (apply_op x s) ! i = appointments s ! i"
proof (cases x)
  case (Book user new_id h d)
  then show ?thesis using assms(1) onSubmit_keeps_earlier by simp
next
  case (Advance u d h)
  then show ?thesis using assms by (simp add: length_after_advance advance_keeps_terminal)
next
  case (Reset u d h)
  then show ?thesis using assms by (simp add: length_after_reset reset_keeps_terminal)
qed

text \<open>
  C5, as the code has it. An appointment whose status is Completed or Cancelled is never
  changed by a booking, by \<open>advance_queue\<close> or by \<open>reset_department_queue\<close>: after any
  sequence of these operations it is still in the table, at its place and with all its
  fields. The status update offered to admins, \<open>update_appointment_status\<close>, is not among
  them: it writes the status it is given and does not look at the current one.
\<close>

theorem terminal_status_kept:
  assumes "i < length (appointments s)" and "terminal (status (appointments s ! i))"
  shows "i < length (appointments (run ops s))
       \<and> appointments (run ops s) ! i = appointments s ! i"
  using assms
proof (induction ops arbitrary: s)
  case Nil
  then show ?case by simp
next
  case (Cons x xs)
  from apply_op_keeps_terminal [OF Cons.prems, of x]
  have l: "i < length (appointments (apply_op x s))"
    and e: "appointments (apply_op x s) ! i = appointments s ! i" by simp_all
  from Cons.prems(2) e have "terminal (status (appointments (apply_op x s) ! i))" by simp
  from Cons.IH [OF l this] e show ?case by simp
qed

text \<open>
  In \<open>done_db\<close> appointment 10 is Completed. The admin of its hospital (user 7) sets it
  back to Waiting: the function returns TRUE and the terminal state is left.
\<close>

theorem terminal_status_counterexample:
  "map status (appointments done_db) = [Completed, Ready]
   \<and> fst (update_appointment_status 10 Waiting 7 done_db) = True
   \<and> map status (appointments (snd (update_appointment_status 10 Waiting 7 done_db)))
        = [Waiting, Ready]"
  by (simp add: update_appointment_status_def done_db_def city_hospital_def)

text \<open>
  From \<open>done_db\<close>: an advance completes token 2, a reset follows, then a booking. The
  Completed appointment 10 is as it was.
\<close>

theorem terminal_status_kept_witness:
  "terminal (status (appointments done_db ! 0))
   \<and> map status (appointments
        (run [Advance (Some 7) 1 1, Reset (Some 7) 1 1, Book (Some 5) 12 1 1] done_db))
      = [Completed, Completed, Waiting]"
proof -
  have l: "0 < length (appointments done_db)" by (simp add: done_db_def)
  have t: "terminal (status (appointments done_db ! 0))" by (simp add: done_db_def terminal_def)
  show ?thesis
    using t terminal_status_kept [OF l t,
        of "[Advance (Some 7) 1 1, Reset (Some 7) 1 1, Book (Some 5) 12 1 1]"]
    by (simp add: done_db_def city_hospital_def run_simps)
qed

section \<open>The counter and the number of issued tokens\<close>

lemma counter_within_onSubmit:
  assumes "counter_within s h d"
  shows "counter_within (snd (onSubmit user new_id h' d' s)) h d"
proof -
  have g: "counter_within s1 h d" if "generateTokenNumber s u h' d' = Inr (t, s1)" for t s1 u
    using generateTokenNumber_Inr [OF that] assms
    by (auto simp: counter_within_def split: option.splits if_splits)
  show ?thesis
  proof (cases rule: onSubmit_cases [of user new_id h' d' s])
    case unchanged
    with assms show ?thesis by simp
  next
    case (issued t s1 u)
    with g show ?thesis by simp
  next
    case (booked t s1 u)
    with g [OF booked(1)] show ?thesis by (simp add: counter_within_def)
  qed
qed

lemma counter_within_reset:
  assumes "counter_within s h d"
  shows "counter_within (after_reset u d' h' s) h d"
proof (cases rule: after_reset_cases [of u d' h' s])
  case unchanged
  with assms show ?thesis by simp
next
  case no_record
  with assms show ?thesis by (simp add: counter_within_def)
next
  case (zeroed q)
  with assms show ?thesis by (simp add: counter_within_def)
qed

lemma counter_within_advance:
  assumes "counter_within s h d" and "advance_has_next s h d (Advance u d' h')"
  shows "counter_within (after_advance u d' h' s) h d"
proof (cases rule: after_advance_cases [of u d' h' s])
  case unchanged
  with assms show ?thesis by simp
next
  case (advanced q)
  show ?thesis
  proof (cases "(h', d') = (h, d)")
    case True
    with advanced assms(2) have "current_token q < total_tokens q" by simp
    with advanced(4) True show ?thesis by (simp add: counter_within_def)
  next
    case False
    with advanced(4) assms(1) show ?thesis by (auto simp: counter_within_def)
  qed
qed

lemma counter_within_apply_op:
  assumes "counter_within s h d" and "advance_has_next s h d x"
  shows "counter_within (apply_op x s) h d"
  using assms
  by (cases x) (simp_all add: counter_within_onSubmit counter_within_reset counter_within_advance
       del: advance_has_next.simps)

text \<open>
  C2, as the code has it. \<open>advance_queue\<close> does not compare the counter with
  \<open>total_tokens\<close>, so the inequality depends on when the admin calls it. For every
  department, \<open>current_token \<le> total_tokens\<close> holds after any sequence of bookings,
  advances and resets, by any callers, that starts where it holds (a fresh queue in
  particular) and in which every advance that moves the counter of this department (a
  call by an admin of the hospital that does not raise) is made while the department has
  \<open>current_token < total_tokens\<close>.
\<close>

theorem counter_within_run:
  assumes "counter_within s hosp dept" and "advances_have_next ops hosp dept s"
  shows "counter_within (run ops s) hosp dept"
  using assms
  by (induction ops arbitrary: s) (simp_all add: counter_within_apply_op)

text \<open>
  From the fresh queue: the admin books (token 1, \<open>total_tokens = 1\<close>) and advances twice.
  The second advance is called at \<open>current_token = total_tokens = 1\<close> and leaves
  \<open>current_token = 2\<close>.
\<close>

theorem counter_within_counterexample:
  "counter_within fresh_db 1 1
   \<and> queue_status
         (run [Book (Some 7) 10 1 1, Advance (Some 7) 1 1, Advance (Some 7) 1 1] fresh_db) (1, 1)
       = Some \<lparr>current_token = 2, total_tokens = 1\<rparr>
   \<and> \<not> counter_within
         (run [Book (Some 7) 10 1 1, Advance (Some 7) 1 1, Advance (Some 7) 1 1] fresh_db) 1 1"
  by (simp add: counter_within_def fresh_db_def city_hospital_def run_simps)

text \<open>
  \<open>guarded_ops\<close> on the fresh queue: the only advance that moves the counter is made at
  \<open>0 < 1\<close>; the advance attempted at equal counters is rejected. The run ends, after the
  reset and a patient's booking, at \<open>current_token = 0\<close> and \<open>total_tokens = 0\<close>.
\<close>

theorem counter_within_run_witness:
  "counter_within fresh_db 1 1
   \<and> advances_have_next guarded_ops 1 1 fresh_db
   \<and> queue_status (run guarded_ops fresh_db) (1, 1) = Some \<lparr>current_token = 0, total_tokens = 0\<rparr>
   \<and> counter_within (run guarded_ops fresh_db) 1 1"
proof -
  have a: "counter_within fresh_db 1 1" by (simp add: counter_within_def fresh_db_def)
  have b: "advances_have_next guarded_ops 1 1 fresh_db"
    by (simp add: guarded_ops_def fresh_db_def city_hospital_def run_simps)
  have c: "queue_status (run guarded_ops fresh_db) (1, 1)
             = Some \<lparr>current_token = 0, total_tokens = 0\<rparr>"
    by (simp add: guarded_ops_def fresh_db_def city_hospital_def run_simps)
  show ?thesis using a b c counter_within_run [OF a b] by simp
qed

section \<open>Token numbers within a department\<close>




















section \<open>Issuing tokens\<close>

text \<open>
  C1, as the code has it. \<open>generateTokenNumber\<close> reads \<open>total_tokens\<close> and writes it back
  in a second request, with no lock, transaction or compare-and-swap between the two.
  When the issuances for one department are made by admins of its hospital (the callers
  whose write of \<open>total_tokens\<close> the database accepts) and run one after another, each
  finished before the next begins, \<open>n\<close> of them receive exactly the numbers
  \<open>total_tokens + 1, ..., total_tokens + n\<close> in this order (no duplicate, no gap) and
  leave \<open>total_tokens\<close> at the last of them, provided the department has a queue record
  or is registered and the counter stays within the column's range; 1000 of them on a
  zeroed record receive 1, ..., 1000.
\<close>

theorem sequential_issue:
  assumes "list_all (\<lambda>u. is_hospital_admin s h (Some u)) callers"
      and "issuable s h d"
      and "issued_so_far s h d + int (length callers) \<le> integer_max"
  shows "\<exists>s'. issue_tokens callers h d s =
                 Inr ([issued_so_far s h d + 1 .. issued_so_far s h d + int (length callers)], s')
             \<and> issued_so_far s' h d = issued_so_far s h d + int (length callers)"
  using assms
proof (induction callers arbitrary: s)
  case Nil
  then show ?case by simp
next
  case (Cons u us)
  let ?T = "issued_so_far s h d"
  let ?n = "length us"
  from Cons.prems(1) have adm: "is_hospital_admin s h (Some u)"
    and rest: "list_all (\<lambda>u. is_hospital_admin s h (Some u)) us" by simp_all
  from Cons.prems(3) have "?T < integer_max" by simp
  from generateTokenNumber_next [OF adm Cons.prems(2) this] obtain s1
    where g: "generateTokenNumber s u h d = Inr (?T + 1, s1)"
      and t1: "issued_so_far s1 h d = ?T + 1"
      and hs: "hospitals s1 = hospitals s"
      and is1: "issuable s1 h d" by blast
  from rest have rest1: "list_all (\<lambda>u. is_hospital_admin s1 h (Some u)) us"
    by (simp add: is_hospital_admin_hospitals [OF hs])
  from Cons.prems(3) t1 have "issued_so_far s1 h d + int ?n \<le> integer_max" by simp
  from Cons.IH [OF rest1 is1 this] t1 obtain s' where
    r: "issue_tokens us h d s1 = Inr ([?T + 1 + 1 .. ?T + 1 + int ?n], s')"
    and t': "issued_so_far s' h d = ?T + 1 + int ?n" by auto
  have a: "?T + int (length (u # us)) = ?T + 1 + int ?n" by simp
  have "[?T + 1 .. ?T + 1 + int ?n] = (?T + 1) # [?T + 1 + 1 .. ?T + 1 + int ?n]"
    by (rule upto_rec1) simp
  with g r t' show ?case unfolding a by simp
qed

text \<open>
  Two failures on the fresh queue. When two issuances by the admin overlap, so that both
  reads are served before the writes, each reads \<open>total_tokens = 0\<close>, each writes 1, and
  both receive token 1, while \<open>total_tokens\<close> ends at 1 (\<open>once_db\<close>). When patients 3 and
  4 issue one after the other, the update of the first is not applied: both receive
  token 1 and the database is as before.
\<close>

theorem overlapping_issue_counterexample:
  "two_overlapping_issues fresh_db 7 7 1 1 = Inr (1, 1, once_db)
   \<and> issue_tokens [3, 4] 1 1 fresh_db = Inr ([1, 1], fresh_db)"
  by (simp add: two_overlapping_issues_def select_total_tokens_def generateTokenNumber_def
                generateTokenNumber_write_def queue_status_write_policy_def
                fresh_db_def once_db_def city_hospital_def or_zero_def integer_max_def)

text \<open>Three issuances by the admin on the fresh queue receive 1, 2 and 3.\<close>

theorem sequential_issue_witness:
  "list_all (\<lambda>u. is_hospital_admin fresh_db 1 (Some u)) [7, 7, 7]
   \<and> issuable fresh_db 1 1
   \<and> issued_so_far fresh_db 1 1 + int (length [7, 7, 7 :: uuid]) \<le> integer_max
   \<and> (\<exists>s'. issue_tokens [7, 7, 7] 1 1 fresh_db = Inr ([1, 2, 3], s') \<and> issued_so_far s' 1 1 = 3)"
proof -
  have z: "issued_so_far fresh_db 1 1 = 0" by (simp add: issued_so_far_def fresh_db_def)
  have c: "list_all (\<lambda>u. is_hospital_admin fresh_db 1 (Some u)) [7, 7, 7]"
    by (simp add: is_hospital_admin_def fresh_db_def city_hospital_def)
  have i: "issuable fresh_db 1 1" by (simp add: issuable_def fresh_db_def)
  have h: "issued_so_far fresh_db 1 1 + int (length [7, 7, 7 :: uuid]) \<le> integer_max"
    by (simp add: issued_so_far_def fresh_db_def integer_max_def)
  have u: "[(1::int)..3] = [1, 2, 3]" by (simp add: upto.simps)
  show ?thesis
    using c i h sequential_issue [OF c i h] unfolding z by (simp add: u)
qed

section \<open>A booking behind the counter\<close>

lemma overtaken_state:
  "appointments (run overtaken_ops fresh_db) =
     [\<lparr>appt_id = 10, user_id = 7, hospital_id = 1, department_id = 1, token_number = 1,
       status = Completed\<rparr>,
      \<lparr>appt_id = 11, user_id = 7, hospital_id = 1, department_id = 1, token_number = 2,
       status = Waiting\<rparr>]
   \<and> queue_status (run overtaken_ops fresh_db) (1, 1) = Some \<lparr>current_token = 2, total_tokens = 2\<rparr>"
  by (simp add: overtaken_ops_def fresh_db_def city_hospital_def run_simps)

lemma advance_behind_counter:
  assumes "behind_counter s i"
  shows "behind_counter (after_advance u d h s) i
       \<and> appointments (after_advance u d h s) ! i = appointments s ! i"
proof (cases rule: after_advance_cases [of u d h s])
  case unchanged
  with assms show ?thesis by simp
next
  case (advanced q)
  with assms show ?thesis
    by (auto simp: behind_counter_def mark_ready_def mark_completed_def in_department_def
             split: option.splits)
qed

lemma advances_behind_counter:
  assumes "behind_counter s i" and "list_all is_advance ops"
  shows "behind_counter (run ops s) i \<and> appointments (run ops s) ! i = appointments s ! i"
  using assms
proof (induction ops arbitrary: s)
  case Nil
  then show ?case by simp
next
  case (Cons x xs)
  from Cons.prems(2) obtain u d h where x: "x = Advance u d h" and xs: "list_all is_advance xs"
    by (cases x) auto
  from advance_behind_counter [OF Cons.prems(1), of u d h]
  have b: "behind_counter (after_advance u d h s) i"
    and e: "appointments (after_advance u d h s) ! i = appointments s ! i" by simp_all
  from Cons.IH [OF b xs] e x show ?case by simp
qed

lemma reset_behind_counter:
  assumes "behind_counter s i"
      and "is_hospital_admin s (hospital_id (appointments s ! i)) u"
  shows "status (appointments
            (after_reset u (department_id (appointments s ! i)) (hospital_id (appointments s ! i)) s) ! i)
         = Cancelled"
  using assms
  by (auto simp: behind_counter_def after_reset_def reset_department_queue_def Let_def
                 cancel_waiting_def in_department_def split: option.splits)

text \<open>
  C10. \<open>generateTokenNumber\<close> takes the token from \<open>total_tokens\<close> alone: for every caller
  it returns \<open>total_tokens + 1\<close>, whatever \<open>current_token\<close> is (and stores it when the
  write policy admits the caller). \<open>advance_queue\<close> calls only the token equal to the new
  \<open>current_token\<close>. So a Waiting appointment whose token the counter has already reached
  exists in a reachable state: after \<open>overtaken_ops\<close> on the fresh queue (a booking, two
  advances, a booking) the second appointment waits with token 2 at \<open>current_token = 2\<close>.
  From any state with such an appointment, no sequence of advances, by any caller on any
  department, changes it: it is still Waiting, and still behind the counter. A reset of
  its department by an admin of the hospital cancels it.
\<close>

theorem waiting_behind_counter:
  "behind_counter (run overtaken_ops fresh_db) 1
   \<and> (\<forall>s u h d q. queue_status s (h, d) = Some q \<longrightarrow> total_tokens q < integer_max \<longrightarrow>
         generateTokenNumber s u h d =
           Inr (total_tokens q + 1,
                if queue_status_write_policy s u h
                then s\<lparr>queue_status := (queue_status s)
                         ((h, d) \<mapsto> q\<lparr>total_tokens := total_tokens q + 1\<rparr>)\<rparr>
                else s))
   \<and> (\<forall>s i ops. behind_counter s i \<longrightarrow> list_all is_advance ops \<longrightarrow>
         behind_counter (run ops s) i \<and> appointments (run ops s) ! i = appointments s ! i)
   \<and> (\<forall>s i u. behind_counter s i \<longrightarrow>
         is_hospital_admin s (hospital_id (appointments s ! i)) u \<longrightarrow>
         status (appointments
                   (after_reset u (department_id (appointments s ! i))
                      (hospital_id (appointments s ! i)) s) ! i) = Cancelled)"
proof -
  have r: "behind_counter (run overtaken_ops fresh_db) 1"
    using overtaken_state by (simp add: behind_counter_def)
  show ?thesis
    using r generateTokenNumber_total advances_behind_counter reset_behind_counter
    by blast
qed

text \<open>Three more advances by the admin leave the overtaken appointment Waiting.\<close>

theorem waiting_behind_counter_witness:
  "behind_counter (run overtaken_ops fresh_db) 1
   \<and> list_all is_advance [Advance (Some 7) 1 1, Advance (Some 7) 1 1, Advance (Some 7) 1 1]
   \<and> status (appointments (run [Advance (Some 7) 1 1, Advance (Some 7) 1 1, Advance (Some 7) 1 1]
                               (run overtaken_ops fresh_db)) ! 1) = Waiting"
proof -
  have l: "list_all is_advance [Advance (Some 7) 1 1, Advance (Some 7) 1 1, Advance (Some 7) 1 1]"
    by simp
  from waiting_behind_counter have r: "behind_counter (run overtaken_ops fresh_db) 1"
    and k: "\<forall>s i ops. behind_counter s i \<longrightarrow> list_all is_advance ops \<longrightarrow>
         behind_counter (run ops s) i \<and> appointments (run ops s) ! i = appointments s ! i"
    by blast+
  from k r l have "appointments (run [Advance (Some 7) 1 1, Advance (Some 7) 1 1, Advance (Some 7) 1 1]
                               (run overtaken_ops fresh_db)) ! 1
                   = appointments (run overtaken_ops fresh_db) ! 1" by blast
  with r l show ?thesis by (simp add: behind_counter_def)
qed

end
